theory Spec2Isabelle
  imports Complex_Main
begin

section \<open>Data model (types.ts)\<close>

text \<open>
  JavaScript numbers are modelled as \<open>real\<close> (the claims below are about clamping, ordering
  and equality of stored values, not about rounding); \<open>Date.now()\<close> is a parameter of every
  operation that reads the clock. An optional field \<open>f?: T\<close> is a \<open>T option\<close>.
\<close>

datatype VideoSourceType = Local

record VideoMetadata =
  duration :: real
  width :: real
  height :: real
  format :: "string option"
  size' :: "real option"

record VideoItem =
  id' :: string
  title :: string
  source :: string
  type :: VideoSourceType
  thumbnail :: "string option"
  subtitleUrl :: "string option"
  metadata :: "VideoMetadata option"
  addedAt :: real
  lastPlayedAt :: "real option"
  progress :: "real option"
  favorite :: "bool option"

datatype Quality = Auto | Q1080p | Q720p | Q480p

record PlayerSettings =
  volume :: real
  playbackRate :: real
  isMuted :: bool
  isTheaterMode :: bool
  quality :: Quality

text \<open>\<open>Partial<PlayerSettings>\<close>: every key may be absent.\<close>

record PartialSettings =
  p_volume :: "real option"
  p_playbackRate :: "real option"
  p_isMuted :: "bool option"
  p_isTheaterMode :: "bool option"
  p_quality :: "Quality option"

section \<open>The catalog store (store.ts)\<close>

record VideoStore =
  videos :: "VideoItem list"
  currentVideoId :: "string option"
  settings :: PlayerSettings

definition initialSettings :: PlayerSettings where
  "initialSettings =
     \<lparr>volume = 8 / 10, playbackRate = 1, isMuted = False, isTheaterMode = False,
      quality = Auto\<rparr>"

definition initialStore :: VideoStore where
  "initialStore = \<lparr>videos = [], currentVideoId = None, settings = initialSettings\<rparr>"

text \<open>
  \<open>addVideo: (video) => set((state) => ({ videos:
     [video, ...state.videos.filter(v => v.id !== video.id)].slice(0, 50) }))\<close>
\<close>

definition addVideo :: "VideoItem \<Rightarrow> VideoStore \<Rightarrow> VideoStore" where
  "addVideo video state =
     state\<lparr>videos := take 50 (video # filter (\<lambda>v. id' v \<noteq> id' video) (videos state))\<rparr>"

text \<open>
  \<open>removeVideo: (id) => set((state) => ({
       videos: state.videos.filter((v) => v.id !== id),
       currentVideoId: state.currentVideoId === id ? null : state.currentVideoId }))\<close>
\<close>

definition removeVideo :: "string \<Rightarrow> VideoStore \<Rightarrow> VideoStore" where
  "removeVideo i state =
     state\<lparr>videos := filter (\<lambda>v. id' v \<noteq> i) (videos state),
           currentVideoId := (if currentVideoId state = Some i then None
                              else currentVideoId state)\<rparr>"

definition setCurrentVideo :: "string option \<Rightarrow> VideoStore \<Rightarrow> VideoStore" where
  "setCurrentVideo i state = state\<lparr>currentVideoId := i\<rparr>"

text \<open>
  \<open>updateVideoProgress: (id, progress) => set((state) => ({ videos: state.videos.map((v) =>
       v.id === id ? { ...v, progress, lastPlayedAt: Date.now() } : v) }))\<close>
\<close>

definition updateVideoProgress :: "real \<Rightarrow> string \<Rightarrow> real \<Rightarrow> VideoStore \<Rightarrow> VideoStore" where
  "updateVideoProgress now i pos state =
     state\<lparr>videos := map (\<lambda>v. if id' v = i
                               then v\<lparr>progress := Some pos, lastPlayedAt := Some now\<rparr>
                               else v) (videos state)\<rparr>"

definition toggleFavorite :: "string \<Rightarrow> VideoStore \<Rightarrow> VideoStore" where
  "toggleFavorite i state =
     state\<lparr>videos := map (\<lambda>v. if id' v = i
                               then v\<lparr>favorite := Some (\<not> (favorite v = Some True))\<rparr>
                               else v) (videos state)\<rparr>"

text \<open>\<open>{ ...state.settings, ...newSettings }\<close>: a key present in the partial record wins.\<close>

definition mergeSettings :: "PlayerSettings \<Rightarrow> PartialSettings \<Rightarrow> PlayerSettings" where
  "mergeSettings s p =
     \<lparr>volume = (case p_volume p of Some x \<Rightarrow> x | None \<Rightarrow> volume s),
      playbackRate = (case p_playbackRate p of Some x \<Rightarrow> x | None \<Rightarrow> playbackRate s),
      isMuted = (case p_isMuted p of Some x \<Rightarrow> x | None \<Rightarrow> isMuted s),
      isTheaterMode = (case p_isTheaterMode p of Some x \<Rightarrow> x | None \<Rightarrow> isTheaterMode s),
      quality = (case p_quality p of Some x \<Rightarrow> x | None \<Rightarrow> quality s)\<rparr>"

definition updateSettings :: "PartialSettings \<Rightarrow> VideoStore \<Rightarrow> VideoStore" where
  "updateSettings newSettings state =
     state\<lparr>settings := mergeSettings (settings state) newSettings\<rparr>"

definition clearHistory :: "VideoStore \<Rightarrow> VideoStore" where
  "clearHistory state = state\<lparr>videos := [], currentVideoId := None\<rparr>"

text \<open>
  The record handed to durable storage:
  \<open>partialize: (state) => ({ videos: state.videos.map(v => ({ ...v, source: '' })),
                               settings: state.settings })\<close>
\<close>

record Snapshot =
  snap_videos :: "VideoItem list"
  snap_settings :: PlayerSettings

definition partialize :: "VideoStore \<Rightarrow> Snapshot" where
  "partialize state =
     \<lparr>snap_videos = map (\<lambda>v. v\<lparr>source := ''''\<rparr>) (videos state),
      snap_settings = settings state\<rparr>"

text \<open>A run of \<open>addVideo\<close> calls, oldest call first.\<close>

fun addAll :: "VideoItem list \<Rightarrow> VideoStore \<Rightarrow> VideoStore" where
  "addAll [] state = state"
| "addAll (v # vs) state = addAll vs (addVideo v state)"

text \<open>A small catalog entry for concrete evaluations.\<close>

definition mkItem :: "string \<Rightarrow> VideoItem" where
  "mkItem i =
     \<lparr>id' = i, title = i, source = ''blob:'' @ i, type = Local, thumbnail = None,
      subtitleUrl = None, metadata = None, addedAt = 0, lastPlayedAt = None,
      progress = None, favorite = None\<rparr>"

text \<open>The catalog built by \<open>n\<close> insertions of entries with pairwise different ids.\<close>

definition sampleItems :: "nat \<Rightarrow> VideoItem list" where
  "sampleItems n = map (\<lambda>k. mkItem (replicate (Suc k) CHR ''a'')) [0..<n]"

definition sampleStore :: "nat \<Rightarrow> VideoStore" where
  "sampleStore n = \<lparr>videos = sampleItems n, currentVideoId = None, settings = initialSettings\<rparr>"

definition twoStore :: VideoStore where
  "twoStore =
     \<lparr>videos = [mkItem ''a'', mkItem ''b''], currentVideoId = Some ''b'',
      settings = initialSettings\<rparr>"

definition storeWithVolume :: "real \<Rightarrow> VideoStore" where
  "storeWithVolume v = initialStore\<lparr>settings := initialSettings\<lparr>volume := v\<rparr>\<rparr>"

section \<open>The playback controller (components/VideoPlayer.tsx)\<close>

definition PLAYBACK_SPEEDS :: "real list" where
  "PLAYBACK_SPEEDS = [1/4, 1/2, 3/4, 1, 5/4, 3/2, 7/4, 2, 5/2, 3]"

subsection \<open>The media element and its listeners\<close>

text \<open>
  Every run of the bind effect creates fresh closures; a closure is identified by the number
  of the effect run that created it. \<open>addEventListener\<close> ignores a listener that is already
  registered for the same event with the same callback; \<open>removeEventListener\<close> removes the
  listener registered with exactly that callback.
\<close>

datatype EventType = TimeUpdate | LoadedMetadata | ErrorEvent | Play | Pause

datatype Listener =
    HandleTimeUpdate nat
  | HandleLoadedMetadata nat
  | HandleError nat
  | PlayArrow nat
  | PauseArrow nat

record VideoElement =
  el_src :: string
  el_paused :: bool
  el_currentTime :: real
  el_playbackRate :: real
  el_volume :: real
  el_muted :: bool
  el_listeners :: "(EventType \<times> Listener) list"

definition addEventListener :: "EventType \<Rightarrow> Listener \<Rightarrow> VideoElement \<Rightarrow> VideoElement" where
  "addEventListener ev cb el =
     (if (ev, cb) \<in> set (el_listeners el) then el
      else el\<lparr>el_listeners := el_listeners el @ [(ev, cb)]\<rparr>)"

definition removeEventListener :: "EventType \<Rightarrow> Listener \<Rightarrow> VideoElement \<Rightarrow> VideoElement" where
  "removeEventListener ev cb el = el\<lparr>el_listeners := removeAll (ev, cb) (el_listeners el)\<rparr>"

text \<open>
  The body of the bind effect after its guard, run number \<open>k\<close>, on the element the ref holds:
  \<open>videoEl.src = video.source; videoEl.playbackRate = ...; videoEl.volume = ...;
    videoEl.muted = ...\<close>, then the five \<open>addEventListener\<close> calls. The listeners for
  \<open>play\<close> and \<open>pause\<close> are arrow functions written in the call itself.
\<close>

definition attach :: "nat \<Rightarrow> VideoItem \<Rightarrow> PlayerSettings \<Rightarrow> VideoElement \<Rightarrow> VideoElement" where
  "attach k video st videoEl =
     (let e0 = videoEl\<lparr>el_src := source video, el_playbackRate := playbackRate st,
                       el_volume := volume st, el_muted := isMuted st\<rparr>;
          e1 = addEventListener TimeUpdate (HandleTimeUpdate k) e0;
          e2 = addEventListener LoadedMetadata (HandleLoadedMetadata k) e1;
          e3 = addEventListener ErrorEvent (HandleError k) e2;
          e4 = addEventListener Play (PlayArrow k) e3
      in addEventListener Pause (PauseArrow k) e4)"

text \<open>
  The function the effect returns:
  \<open>videoEl.removeEventListener('timeupdate', handleTimeUpdate);
    videoEl.removeEventListener('loadedmetadata', handleLoadedMetadata);
    videoEl.removeEventListener('error', handleError);\<close>
\<close>

definition cleanup :: "nat \<Rightarrow> VideoElement \<Rightarrow> VideoElement" where
  "cleanup k videoEl =
     removeEventListener ErrorEvent (HandleError k)
       (removeEventListener LoadedMetadata (HandleLoadedMetadata k)
          (removeEventListener TimeUpdate (HandleTimeUpdate k) videoEl))"

text \<open>
  The effect with its guard \<open>if (!videoEl || !video.source) return;\<close>: the new element
  and the cleanup it returns, if any (the number of the run whose listeners it removes).
\<close>

definition bindEffect ::
  "nat \<Rightarrow> VideoItem \<Rightarrow> PlayerSettings \<Rightarrow> VideoElement option \<Rightarrow> VideoElement option \<times> nat option" where
  "bindEffect k video st ref =
     (case ref of
        None \<Rightarrow> (None, None)
      | Some videoEl \<Rightarrow>
          if source video = [] then (Some videoEl, None)
          else (Some (attach k video st videoEl), Some k))"

text \<open>
  The listeners the binding of run \<open>k\<close> registers, and those of them an element still holds.
\<close>

definition bindingListeners :: "nat \<Rightarrow> (EventType \<times> Listener) list" where
  "bindingListeners k =
     [(TimeUpdate, HandleTimeUpdate k), (LoadedMetadata, HandleLoadedMetadata k),
      (ErrorEvent, HandleError k), (Play, PlayArrow k), (Pause, PauseArrow k)]"

definition heldListeners :: "nat \<Rightarrow> VideoElement \<Rightarrow> (EventType \<times> Listener) list" where
  "heldListeners k el = filter (\<lambda>l. l \<in> set (bindingListeners k)) (el_listeners el)"

text \<open>
  A series of rebinds of the same element (the component is rendered with one item after the
  other): before each run of the effect, the cleanup of the previous run, if it returned one.
\<close>

fun rebindAll ::
  "nat \<Rightarrow> nat option \<Rightarrow> VideoItem list \<Rightarrow> PlayerSettings \<Rightarrow> VideoElement \<Rightarrow> VideoElement" where
  "rebindAll k pending [] st el = el"
| "rebindAll k pending (v # vs) st el =
     (let el1 = (case pending of None \<Rightarrow> el | Some j \<Rightarrow> cleanup j el)
      in case bindEffect k v st (Some el1) of
           (Some el2, pending2) \<Rightarrow> rebindAll (Suc k) pending2 vs st el2
         | (None, pending2) \<Rightarrow> rebindAll (Suc k) pending2 vs st el1)"

definition freshElement :: VideoElement where
  "freshElement =
     \<lparr>el_src = [], el_paused = True, el_currentTime = 0, el_playbackRate = 1, el_volume = 1,
      el_muted = False, el_listeners = []\<rparr>"

subsection \<open>Component state and controls\<close>

text \<open>
  The part of the component's state that the controls below read and write. A timer set
  with \<open>setTimeout(f, d)\<close> at time \<open>now\<close> is recorded with its due time \<open>now + d\<close>. The
  controls timer also keeps the value of \<open>isPlaying\<close> its callback closed over.
  \<open>el_currentTime\<close> holds the value the code assigns to \<open>currentTime\<close> (the element may
  clamp it to the playable range afterwards).
\<close>

datatype SkipFeedback = SkipLeft | SkipRight

record Rect =
  rect_left :: real
  rect_width :: real

record Player =
  isPlaying :: bool
  showControls :: bool
  skipFeedback :: "SkipFeedback option"
  skipFeedbackTimers :: "real list"
  controlsTimeoutRef :: "(real \<times> bool) option"
  lastTapRef :: "(real \<times> real) option"
  videoRef :: "VideoElement option"
  containerRef :: "Rect option"
  fullscreenElement :: bool


text \<open>
  \<open>if (videoRef.current?.paused) videoRef.current.play(); else videoRef.current?.pause();\<close>
\<close>

definition togglePlay :: "Player \<Rightarrow> Player" where
  "togglePlay p =
     (case videoRef p of
        None \<Rightarrow> p
      | Some el \<Rightarrow>
          if el_paused el then p\<lparr>videoRef := Some (el\<lparr>el_paused := False\<rparr>)\<rparr>
          else p\<lparr>videoRef := Some (el\<lparr>el_paused := True\<rparr>)\<rparr>)"

definition seek :: "real \<Rightarrow> real \<Rightarrow> Player \<Rightarrow> Player" where
  "seek now amount p =
     (case videoRef p of
        None \<Rightarrow> p
      | Some el \<Rightarrow>
          p\<lparr>videoRef := Some (el\<lparr>el_currentTime := el_currentTime el + amount\<rparr>),
            skipFeedback := Some (if amount < 0 then SkipLeft else SkipRight),
            skipFeedbackTimers := skipFeedbackTimers p @ [now + 500]\<rparr>)"

text \<open>
  Fullscreen is requested from the platform; the model takes the request as granted.
\<close>

definition toggleFullscreen :: "Player \<Rightarrow> Player" where
  "toggleFullscreen p =
     (case containerRef p of
        None \<Rightarrow> p
      | Some el \<Rightarrow> p\<lparr>fullscreenElement := \<not> fullscreenElement p\<rparr>)"

definition noSettings :: PartialSettings where
  "noSettings =
     \<lparr>p_volume = None, p_playbackRate = None, p_isMuted = None, p_isTheaterMode = None,
      p_quality = None\<rparr>"

definition toggleMute :: "VideoStore \<Rightarrow> VideoStore" where
  "toggleMute store = updateSettings (noSettings\<lparr>p_isMuted := Some (\<not> isMuted (settings store))\<rparr>) store"

text \<open>The speed menu: \<open>onClick={() => { updateSettings({ playbackRate: speed }); ... }}\<close>
  for a \<open>speed\<close> of \<open>PLAYBACK_SPEEDS\<close>; the volume slider:
  \<open>onChange={(e) => updateSettings({ volume: parseFloat(e.target.value) })}\<close>.\<close>

definition selectSpeed :: "real \<Rightarrow> VideoStore \<Rightarrow> VideoStore" where
  "selectSpeed speed store = updateSettings (noSettings\<lparr>p_playbackRate := Some speed\<rparr>) store"

definition volumeSlider :: "real \<Rightarrow> VideoStore \<Rightarrow> VideoStore" where
  "volumeSlider v store = updateSettings (noSettings\<lparr>p_volume := Some v\<rparr>) store"

subsection \<open>Keyboard shortcuts\<close>

datatype KeyCode =
  Space | ArrowLeft | ArrowRight | ArrowUp | ArrowDown | KeyF | KeyM | OtherKey string

text \<open>
  \<open>activeTag\<close> is \<open>document.activeElement?.tagName.toLowerCase() || ''\<close>. The handler works
  on the component and on the store; \<open>e.preventDefault()\<close> has no effect on either.
\<close>

definition handleKeyDown ::
  "real \<Rightarrow> string \<Rightarrow> KeyCode \<Rightarrow> Player \<times> VideoStore \<Rightarrow> Player \<times> VideoStore" where
  "handleKeyDown now activeTag code ps =
     (let p = fst ps; store = snd ps in
      if activeTag \<in> set [''input'', ''textarea''] then ps
      else case code of
          Space \<Rightarrow> (togglePlay p, store)
        | ArrowLeft \<Rightarrow> (seek now (- 10) p, store)
        | ArrowRight \<Rightarrow> (seek now 10 p, store)
        | ArrowUp \<Rightarrow>
            (p, updateSettings
                  (noSettings\<lparr>p_volume := Some (min 1 (volume (settings store) + 1 / 10))\<rparr>) store)
        | ArrowDown \<Rightarrow>
            (p, updateSettings
                  (noSettings\<lparr>p_volume := Some (max 0 (volume (settings store) - 1 / 10))\<rparr>) store)
        | KeyF \<Rightarrow> (toggleFullscreen p, store)
        | KeyM \<Rightarrow> (p, toggleMute store)
        | OtherKey c \<Rightarrow> ps)"

subsection \<open>Taps\<close>

datatype js_error = TypeError






definition samplePlayer :: Player where
  "samplePlayer =
     \<lparr>isPlaying = False, showControls = True, skipFeedback = None, skipFeedbackTimers = [],
      controlsTimeoutRef = None, lastTapRef = None,
      videoRef = Some (freshElement\<lparr>el_currentTime := 60\<rparr>),
      containerRef = Some \<lparr>rect_left = 0, rect_width = 800\<rparr>, fullscreenElement = False\<rparr>"

section \<open>Thumbnail extraction (utils/helpers.ts)\<close>

text \<open>
  \<open>generateThumbnail\<close> creates a video element for the file, installs three handlers on it
  and returns a promise whose executor receives \<open>resolve\<close> only. What happens next is up to
  the element: the model takes the events it delivers, in order, as the input. An event
  carries what its handler reads from the element: \<open>video.duration\<close> at
  \<open>loadedmetadata\<close>; \<open>video.duration\<close>, \<open>video.videoWidth\<close>, \<open>video.videoHeight\<close> and
  the string \<open>canvas.toDataURL('image/jpeg', 0.8)\<close> returns at \<open>seeked\<close>.
\<close>

record ThumbResult =
  thumbnail' :: string
  duration' :: real
  width' :: real
  height' :: real

datatype 'a Promise = Pending | Resolved 'a | Rejected js_error

datatype DecodeEvent =
    OnLoadedMetadata real
  | OnSeeked real real real string
  | OnError

record ThumbSession =
  th_promise :: "ThumbResult Promise"
  th_currentTime :: real
  th_revoked :: bool

definition newSession :: ThumbSession where
  "newSession = \<lparr>th_promise = Pending, th_currentTime = 0, th_revoked = False\<rparr>"

text \<open>Resolving a promise that is already settled has no effect.\<close>

definition resolve :: "ThumbResult \<Rightarrow> ThumbSession \<Rightarrow> ThumbSession" where
  "resolve r s = (if th_promise s = Pending then s\<lparr>th_promise := Resolved r\<rparr> else s)"

definition degraded :: ThumbResult where
  "degraded = \<lparr>thumbnail' = [], duration' = 0, width' = 0, height' = 0\<rparr>"

fun deliver :: "DecodeEvent \<Rightarrow> ThumbSession \<Rightarrow> ThumbSession" where
  "deliver (OnLoadedMetadata d) s = s\<lparr>th_currentTime := min 1 (d * (1 / 10))\<rparr>"
| "deliver (OnSeeked d w h url) s =
     (resolve \<lparr>thumbnail' = url, duration' = d, width' = w, height' = h\<rparr> s)\<lparr>th_revoked := True\<rparr>"
| "deliver OnError s = resolve degraded (s\<lparr>th_revoked := True\<rparr>)"

fun deliverAll :: "DecodeEvent list \<Rightarrow> ThumbSession \<Rightarrow> ThumbSession" where
  "deliverAll [] s = s"
| "deliverAll (e # es) s = deliverAll es (deliver e s)"

definition generateThumbnail :: "DecodeEvent list \<Rightarrow> ThumbResult Promise" where
  "generateThumbnail events = th_promise (deliverAll events newSession)"

text \<open>The events that end a decode session: the seek completed, or the element failed.\<close>

fun terminal :: "DecodeEvent \<Rightarrow> bool" where
  "terminal (OnLoadedMetadata d) = False"
| "terminal (OnSeeked d w h url) = True"
| "terminal OnError = True"

section \<open>The file picker (components/Uploader.tsx)\<close>

text \<open>\<open>name.split('.')\<close>: the segments between the dots, never an empty list.\<close>

fun split_dot :: "string \<Rightarrow> string list" where
  "split_dot [] = [[]]"
| "split_dot (c # cs) =
     (if c = CHR ''.'' then [] # split_dot cs
      else (case split_dot cs of [] \<Rightarrow> [[c]] | seg # segs \<Rightarrow> (c # seg) # segs))"

text \<open>
  A picked file, with what the platform answers while it is imported: the events of its
  decode session, \<open>crypto.randomUUID()\<close>, \<open>URL.createObjectURL(file)\<close> and \<open>Date.now()\<close>.
\<close>

record PickedFile =
  file_name :: string
  file_size :: real
  decode :: "DecodeEvent list"
  uuid :: string
  objectUrl :: string
  now' :: real

definition newVideo :: "PickedFile \<Rightarrow> ThumbResult \<Rightarrow> VideoItem" where
  "newVideo f r =
     \<lparr>id' = uuid f,
      title = (case split_dot (file_name f) of [] \<Rightarrow> [] | seg # segs \<Rightarrow> seg),
      source = objectUrl f,
      type = Local,
      thumbnail = Some (thumbnail' r),
      subtitleUrl = None,
      metadata = Some \<lparr>duration = duration' r, width = width' r, height = height' r,
                        format = (case rev (split_dot (file_name f)) of
                                    [] \<Rightarrow> None | seg # segs \<Rightarrow> Some seg),
                        size' = Some (file_size f)\<rparr>,
      addedAt = now' f,
      lastPlayedAt = None, progress = None, favorite = None\<rparr>"

text \<open>
  The \<open>for\<close> loop of \<open>handleLocalUpload\<close>, with \<open>n = files.length\<close>. An \<open>await\<close> on a promise
  that stays pending never continues: the loop stops there and the result says that it did
  not reach its end. A rejection is caught and the loop goes on with the next file.
\<close>

fun importLoop :: "nat \<Rightarrow> PickedFile list \<Rightarrow> VideoStore \<Rightarrow> VideoStore \<times> bool" where
  "importLoop n [] store = (store, True)"
| "importLoop n (f # fs) store =
     (case generateThumbnail (decode f) of
        Pending \<Rightarrow> (store, False)
      | Rejected err \<Rightarrow> importLoop n fs store
      | Resolved r \<Rightarrow>
          (let store1 = addVideo (newVideo f r) store;
               store2 = (if n = 1 then setCurrentVideo (Some (id' (newVideo f r))) store1
                         else store1)
           in importLoop n fs store2))"

text \<open>
  The handler on the store and on the component's \<open>isLoading\<close>:
  \<open>if (files.length === 0) return; setIsLoading(true); for ... ; setIsLoading(false);\<close>
\<close>

definition handleLocalUpload :: "PickedFile list \<Rightarrow> VideoStore \<times> bool \<Rightarrow> VideoStore \<times> bool" where
  "handleLocalUpload files si =
     (if length files = 0 then si
      else (case importLoop (length files) files (fst si) of
              (store, finished) \<Rightarrow> (store, \<not> finished)))"

definition sampleFile :: "string \<Rightarrow> PickedFile" where
  "sampleFile u =
     \<lparr>file_name = ''clip.mp4'', file_size = 1024,
      decode = [OnLoadedMetadata 120, OnSeeked 120 1920 1080 ''data:image/jpeg''],
      uuid = u, objectUrl = ''blob:'' @ u, now' = 1000\<rparr>"

text \<open>The preference invariant of the data model, and the partial records that respect it.\<close>

definition settings_inv :: "PlayerSettings \<Rightarrow> bool" where
  "settings_inv st \<longleftrightarrow> 0 \<le> volume st \<and> volume st \<le> 1 \<and> playbackRate st \<in> set PLAYBACK_SPEEDS"

definition partial_ok :: "PartialSettings \<Rightarrow> bool" where
  "partial_ok ps \<longleftrightarrow>
     (case p_volume ps of None \<Rightarrow> True | Some v \<Rightarrow> 0 \<le> v \<and> v \<le> 1) \<and>
     (case p_playbackRate ps of None \<Rightarrow> True | Some r \<Rightarrow> r \<in> set PLAYBACK_SPEEDS)"

section \<open>Catalog store: properties\<close>

lemma videos_addVideo:
  "videos (addVideo v s) = take 50 (v # filter (\<lambda>x. id' x \<noteq> id' v) (videos s))"
  by (simp add: addVideo_def)

lemma length_addVideo: "length (videos (addVideo v s)) \<le> 50"
  by (simp add: addVideo_def)

lemma distinct_addVideo:
  assumes "distinct (map id' (videos s))"
  shows "distinct (map id' (videos (addVideo v s)))"
proof -
  let ?rest = "filter (\<lambda>x. id' x \<noteq> id' v) (videos s)"
  have "distinct (map id' ?rest)"
    using assms by (simp add: distinct_map_filter)
  moreover have "id' v \<notin> set (map id' ?rest)"
    by auto
  ultimately have "distinct (map id' (v # ?rest))"
    by simp
  then have "distinct (take 50 (map id' (v # ?rest)))"
    by (rule distinct_take)
  then show ?thesis
    by (simp only: videos_addVideo take_map)
qed

lemma addAll_invariant:
  "distinct (map id' (videos s)) \<Longrightarrow> length (videos s) \<le> 50 \<Longrightarrow>
     distinct (map id' (videos (addAll vs s))) \<and> length (videos (addAll vs s)) \<le> 50"
proof (induction vs arbitrary: s)
  case Nil
  then show ?case by simp
next
  case (Cons v vs)
  show ?case
    using Cons.IH [of "addVideo v s"] distinct_addVideo [OF Cons.prems(1)] length_addVideo
    by simp
qed

lemma addVideo_evicts_last:
  assumes len: "length (videos s) = 50" and fresh: "id' v \<notin> id' ` set (videos s)"
  shows "videos (addVideo v s) = v # butlast (videos s)"
proof -
  have "filter (\<lambda>x. id' x \<noteq> id' v) (videos s) = videos s"
    unfolding filter_id_conv using fresh by (metis image_eqI)
  then have "videos (addVideo v s) = v # take 49 (videos s)"
    by (simp add: addVideo_def)
  moreover have "take 49 (videos s) = butlast (videos s)"
    using len by (simp add: butlast_conv_take)
  ultimately show ?thesis by simp
qed


lemma take_append_take: "take n (ys @ take n zs) = take n (ys @ zs)"
  by (simp add: min_def)

lemma addVideo_fresh:
  assumes "id' v \<notin> id' ` set (videos s)"
  shows "videos (addVideo v s) = take 50 (v # videos s)"
proof -
  have "filter (\<lambda>x. id' x \<noteq> id' v) (videos s) = videos s"
    unfolding filter_id_conv using assms by (metis image_eqI)
  then show ?thesis by (simp add: addVideo_def)
qed

lemma disjoint_step: "B \<subseteq> insert x C \<Longrightarrow> x \<notin> A \<Longrightarrow> A \<inter> C = {} \<Longrightarrow> A \<inter> B = {}"
  by blast

lemma addAll_fresh:
  "distinct (map id' vs) \<Longrightarrow> id' ` set vs \<inter> id' ` set (videos s) = {} \<Longrightarrow>
     length (videos s) \<le> 50 \<Longrightarrow> videos (addAll vs s) = take 50 (rev vs @ videos s)"
proof (induction vs arbitrary: s)
  case Nil
  then show ?case by simp
next
  case (Cons v vs)
  have fresh: "id' v \<notin> id' ` set (videos s)"
    using Cons.prems(2) by auto
  have step: "videos (addVideo v s) = take 50 (v # videos s)"
    by (rule addVideo_fresh [OF fresh])
  have "set (videos (addVideo v s)) \<subseteq> insert v (set (videos s))"
    unfolding step using set_take_subset [of 50 "v # videos s"] by simp
  then have sub: "id' ` set (videos (addVideo v s)) \<subseteq> insert (id' v) (id' ` set (videos s))"
    by (metis image_insert image_mono)
  have notin: "id' v \<notin> id' ` set vs"
    using Cons.prems(1) by simp
  have old: "id' ` set vs \<inter> id' ` set (videos s) = {}"
    using Cons.prems(2) by simp
  have disj: "id' ` set vs \<inter> id' ` set (videos (addVideo v s)) = {}"
    by (rule disjoint_step [OF sub notin old])
  have "videos (addAll vs (addVideo v s)) = take 50 (rev vs @ videos (addVideo v s))"
    using Cons.IH [OF _ disj length_addVideo] Cons.prems(1) by simp
  also have "\<dots> = take 50 (rev vs @ v # videos s)"
    unfolding step by (rule take_append_take)
  finally show ?case by simp
qed


text \<open>
  Claim C1. \<open>addVideo\<close> removes the entries with the id of the new item, puts the new item in
  front and keeps the first 50 entries. Hence after at least one insertion the catalog has
  at most 50 entries; insertions keep the ids pairwise different (and they are, starting
  from the empty catalog); inserting an item with a new id into a catalog of 50 entries
  drops the last entry, which is the least recently inserted one: after insertions with
  pairwise different ids the catalog is the last 50 of them, newest first.
\<close>

theorem C1_addVideo:
  "videos (addVideo v s) = take 50 (v # filter (\<lambda>x. id' x \<noteq> id' v) (videos s))
   \<and> length (videos (addAll (v # vs) s)) \<le> 50
   \<and> length (videos (addAll vs initialStore)) \<le> 50
   \<and> distinct (map id' (videos (addAll vs initialStore)))
   \<and> (distinct (map id' (videos s)) \<longrightarrow> distinct (map id' (videos (addAll vs s))))
   \<and> (length (videos s) = 50 \<and> id' v \<notin> id' ` set (videos s) \<longrightarrow>
        videos (addVideo v s) = v # butlast (videos s))
   \<and> (distinct (map id' vs) \<longrightarrow> videos (addAll vs initialStore) = take 50 (rev vs))"
proof -
  have len1: "length (videos (addAll (v # vs) s)) \<le> 50"
  proof (induction vs arbitrary: v s)
    case Nil
    show ?case by (simp add: length_addVideo)
  next
    case (Cons w ws)
    show ?case using Cons.IH [of w "addVideo v s"] by simp
  qed
  have init: "distinct (map id' (videos initialStore))" "length (videos initialStore) \<le> 50"
    by (simp_all add: initialStore_def)
  have inv0: "distinct (map id' (videos (addAll vs initialStore))) \<and>
      length (videos (addAll vs initialStore)) \<le> 50"
    by (rule addAll_invariant [OF init])
  have dist: "distinct (map id' (videos s)) \<longrightarrow> distinct (map id' (videos (addAll vs s)))"
  proof (induction vs arbitrary: s)
    case Nil
    show ?case by simp
  next
    case (Cons w ws)
    show ?case using Cons.IH [of "addVideo w s"] distinct_addVideo [of s w] by simp
  qed
  have evict: "length (videos s) = 50 \<and> id' v \<notin> id' ` set (videos s) \<longrightarrow>
        videos (addVideo v s) = v # butlast (videos s)"
    using addVideo_evicts_last by blast
  have fresh: "distinct (map id' vs) \<longrightarrow> videos (addAll vs initialStore) = take 50 (rev vs)"
    using addAll_fresh [of vs initialStore] by (simp add: initialStore_def)
  show ?thesis
    using videos_addVideo [of v s] len1 inv0 dist evict fresh by blast
qed

text \<open>
  The hypotheses of C1 at a full catalog of 50 entries and at 51 insertions with pairwise
  different ids.
\<close>

theorem C1_addVideo_witness:
  "distinct (map id' (videos (sampleStore 50)))
   \<and> length (videos (sampleStore 50)) = 50
   \<and> id' (mkItem ''new'') \<notin> id' ` set (videos (sampleStore 50))
   \<and> videos (addVideo (mkItem ''new'') (sampleStore 50)) = mkItem ''new'' # butlast (videos (sampleStore 50))
   \<and> distinct (map id' (videos (addAll (sampleItems 51) (sampleStore 50))))
   \<and> distinct (map id' (sampleItems 51))
   \<and> videos (addAll (sampleItems 51) initialStore) = take 50 (rev (sampleItems 51))"
proof -
  have h1: "distinct (map id' (videos (sampleStore 50)))"
    by (simp add: sampleStore_def sampleItems_def mkItem_def comp_def distinct_map inj_on_def)
  have h2: "length (videos (sampleStore 50)) = 50"
    by (simp add: sampleStore_def sampleItems_def)
  have h3: "id' (mkItem ''new'') \<notin> id' ` set (videos (sampleStore 50))"
    by (simp add: sampleStore_def sampleItems_def mkItem_def image_iff)
  have h4: "distinct (map id' (sampleItems 51))"
    by (simp add: sampleItems_def mkItem_def comp_def distinct_map inj_on_def)
  show ?thesis
    using C1_addVideo [of "mkItem ''new''" "sampleStore 50" "sampleItems 51"] h1 h2 h3 h4
    by blast
qed


lemma map_single_update:
  assumes k: "k < length xs" and only: "\<And>j. j < length xs \<Longrightarrow> j \<noteq> k \<Longrightarrow> f (xs ! j) = xs ! j"
  shows "map f xs = xs[k := f (xs ! k)]"
proof (rule nth_equalityI)
  show "length (map f xs) = length (xs[k := f (xs ! k)])" by simp
next
  fix j assume "j < length (map f xs)"
  then have j: "j < length xs" by simp
  show "map f xs ! j = xs[k := f (xs ! k)] ! j"
  proof (cases "j = k")
    case True
    then show ?thesis using k by simp
  next
    case False
    then show ?thesis using j k only [OF j False] by simp
  qed
qed

lemma updateVideoProgress_absent:
  assumes "i \<notin> id' ` set (videos s)"
  shows "updateVideoProgress now i pos s = s"
proof -
  have "map (\<lambda>v. if id' v = i then v\<lparr>progress := Some pos, lastPlayedAt := Some now\<rparr> else v)
          (videos s) = videos s"
    using assms by (intro map_idI) auto
  then show ?thesis by (simp add: updateVideoProgress_def)
qed

lemma updateVideoProgress_single:
  assumes d: "distinct (map id' (videos s))" and k: "k < length (videos s)"
    and hit: "id' (videos s ! k) = i"
  shows "videos (updateVideoProgress now i pos s) =
           (videos s)[k := (videos s ! k)\<lparr>progress := Some pos, lastPlayedAt := Some now\<rparr>]"
proof -
  let ?f = "\<lambda>v. if id' v = i then v\<lparr>progress := Some pos, lastPlayedAt := Some now\<rparr> else v"
  have other: "?f (videos s ! j) = videos s ! j" if j: "j < length (videos s)" and ne: "j \<noteq> k" for j
  proof -
    have "map id' (videos s) ! j \<noteq> map id' (videos s) ! k"
      using nth_eq_iff_index_eq [OF d, of j k] j k ne by simp
    then have "id' (videos s ! j) \<noteq> i" using j k hit by simp
    then show ?thesis by simp
  qed
  have "map ?f (videos s) = (videos s)[k := ?f (videos s ! k)]"
    by (rule map_single_update [OF k other])
  then show ?thesis using hit by (simp add: updateVideoProgress_def)
qed

text \<open>
  Claim C3. \<open>updateVideoProgress\<close> keeps the length and the order of the catalog; the entry
  at each position is the old one, with position and last-played time set if its id is the
  given one and untouched otherwise. With pairwise different ids that is one entry, and the
  new catalog is the old one updated at that index. Without an entry of that id the store
  is unchanged. The selection and the preferences are never touched.
\<close>

theorem C3_updateVideoProgress:
  "length (videos (updateVideoProgress now i pos s)) = length (videos s)
   \<and> (\<forall>k < length (videos s).
        videos (updateVideoProgress now i pos s) ! k =
          (if id' (videos s ! k) = i
           then (videos s ! k)\<lparr>progress := Some pos, lastPlayedAt := Some now\<rparr>
           else videos s ! k))
   \<and> (\<forall>k < length (videos s). distinct (map id' (videos s)) \<and> id' (videos s ! k) = i \<longrightarrow>
        videos (updateVideoProgress now i pos s) =
          (videos s)[k := (videos s ! k)\<lparr>progress := Some pos, lastPlayedAt := Some now\<rparr>])
   \<and> (i \<notin> id' ` set (videos s) \<longrightarrow> updateVideoProgress now i pos s = s)
   \<and> currentVideoId (updateVideoProgress now i pos s) = currentVideoId s
   \<and> settings (updateVideoProgress now i pos s) = settings s"
proof -
  have a: "length (videos (updateVideoProgress now i pos s)) = length (videos s)"
    by (simp add: updateVideoProgress_def)
  have b: "\<forall>k < length (videos s).
        videos (updateVideoProgress now i pos s) ! k =
          (if id' (videos s ! k) = i
           then (videos s ! k)\<lparr>progress := Some pos, lastPlayedAt := Some now\<rparr>
           else videos s ! k)"
    by (simp add: updateVideoProgress_def)
  have c: "\<forall>k < length (videos s). distinct (map id' (videos s)) \<and> id' (videos s ! k) = i \<longrightarrow>
        videos (updateVideoProgress now i pos s) =
          (videos s)[k := (videos s ! k)\<lparr>progress := Some pos, lastPlayedAt := Some now\<rparr>]"
    using updateVideoProgress_single by blast
  have d: "i \<notin> id' ` set (videos s) \<longrightarrow> updateVideoProgress now i pos s = s"
    using updateVideoProgress_absent by blast
  have e: "currentVideoId (updateVideoProgress now i pos s) = currentVideoId s"
    "settings (updateVideoProgress now i pos s) = settings s"
    by (simp_all add: updateVideoProgress_def)
  show ?thesis using a b c d e by blast
qed

theorem C3_updateVideoProgress_witness:
  "(1::nat) < length (videos twoStore)
   \<and> distinct (map id' (videos twoStore))
   \<and> id' (videos twoStore ! 1) = ''b''
   \<and> videos (updateVideoProgress 5000 ''b'' 42 twoStore) =
       [mkItem ''a'', (mkItem ''b'')\<lparr>progress := Some 42, lastPlayedAt := Some 5000\<rparr>]
   \<and> ''zz'' \<notin> id' ` set (videos twoStore)
   \<and> updateVideoProgress 5000 ''zz'' 42 twoStore = twoStore"
proof -
  have h1: "(1::nat) < length (videos twoStore)"
    by (simp add: twoStore_def)
  have h2: "distinct (map id' (videos twoStore))"
    by (simp add: twoStore_def mkItem_def)
  have h3: "id' (videos twoStore ! 1) = ''b''"
    by (simp add: twoStore_def mkItem_def)
  have h4: "''zz'' \<notin> id' ` set (videos twoStore)"
    by (simp add: twoStore_def mkItem_def)
  have "videos (updateVideoProgress 5000 ''b'' 42 twoStore) =
      (videos twoStore)[1 := (videos twoStore ! 1)\<lparr>progress := Some 42, lastPlayedAt := Some 5000\<rparr>]"
    using C3_updateVideoProgress [of 5000 "''b''" 42 twoStore] h1 h2 h3 by blast
  then have c1: "videos (updateVideoProgress 5000 ''b'' 42 twoStore) =
       [mkItem ''a'', (mkItem ''b'')\<lparr>progress := Some 42, lastPlayedAt := Some 5000\<rparr>]"
    by (simp add: twoStore_def)
  have c2: "updateVideoProgress 5000 ''zz'' 42 twoStore = twoStore"
    using C3_updateVideoProgress [of 5000 "''zz''" 42 twoStore] h4 by blast
  show ?thesis using h1 h2 h3 h4 c1 c2 by blast
qed

text \<open>
  Claim C4. The snapshot written to durable storage holds, for every store state, the
  catalog entries in order, each with an empty source and otherwise as it is in the store,
  and the preferences as they are; no entry of a snapshot has a non-empty source.
\<close>

theorem C4_partialize:
  "snap_videos (partialize s) = map (\<lambda>v. v\<lparr>source := []\<rparr>) (videos s)
   \<and> snap_settings (partialize s) = settings s
   \<and> length (snap_videos (partialize s)) = length (videos s)
   \<and> (\<forall>k < length (videos s).
        source (snap_videos (partialize s) ! k) = []
        \<and> (snap_videos (partialize s) ! k)\<lparr>source := source (videos s ! k)\<rparr> = videos s ! k)
   \<and> (\<forall>v \<in> set (snap_videos (partialize s)). source v = [])"
  by (auto simp: partialize_def)

theorem C4_partialize_witness:
  "(1::nat) < length (videos twoStore)
   \<and> source (videos twoStore ! 1) = ''blob:b''
   \<and> source (snap_videos (partialize twoStore) ! 1) = []
   \<and> (mkItem ''a'')\<lparr>source := []\<rparr> \<in> set (snap_videos (partialize twoStore))
   \<and> source ((mkItem ''a'')\<lparr>source := []\<rparr>) = []"
proof -
  have h1: "(1::nat) < length (videos twoStore)"
    by (simp add: twoStore_def)
  have h2: "source (videos twoStore ! 1) = ''blob:b''"
    by (simp add: twoStore_def mkItem_def)
  have h3: "(mkItem ''a'')\<lparr>source := []\<rparr> \<in> set (snap_videos (partialize twoStore))"
    by (simp add: twoStore_def partialize_def)
  have c1: "source (snap_videos (partialize twoStore) ! 1) = []"
    using C4_partialize [of twoStore] h1 by blast
  have c2: "source ((mkItem ''a'')\<lparr>source := []\<rparr>) = []"
    using C4_partialize [of twoStore] h3 by blast
  show ?thesis using h1 h2 h3 c1 c2 by blast
qed

text \<open>
  Claim C7. \<open>removeVideo\<close> keeps exactly the entries with another id, in order. The
  selection is cleared when it is the removed id, and is left as it is otherwise: it changes
  if and only if it was the removed id.
\<close>

theorem C7_removeVideo:
  "videos (removeVideo i s) = filter (\<lambda>v. id' v \<noteq> i) (videos s)
   \<and> i \<notin> id' ` set (videos (removeVideo i s))
   \<and> set (videos (removeVideo i s)) = {v \<in> set (videos s). id' v \<noteq> i}
   \<and> (currentVideoId s = Some i \<longrightarrow> currentVideoId (removeVideo i s) = None)
   \<and> (currentVideoId s \<noteq> Some i \<longrightarrow> currentVideoId (removeVideo i s) = currentVideoId s)
   \<and> (currentVideoId (removeVideo i s) \<noteq> currentVideoId s \<longleftrightarrow> currentVideoId s = Some i)
   \<and> settings (removeVideo i s) = settings s"
  by (auto simp: removeVideo_def)

theorem C7_removeVideo_witness:
  "currentVideoId twoStore = Some ''b''
   \<and> currentVideoId (removeVideo ''b'' twoStore) = None
   \<and> videos (removeVideo ''b'' twoStore) = [mkItem ''a'']
   \<and> currentVideoId twoStore \<noteq> Some ''a''
   \<and> currentVideoId (removeVideo ''a'' twoStore) = Some ''b''"
proof -
  have h1: "currentVideoId twoStore = Some ''b''"
    by (simp add: twoStore_def)
  have h2: "currentVideoId twoStore \<noteq> Some ''a''"
    by (simp add: twoStore_def)
  have c1: "currentVideoId (removeVideo ''b'' twoStore) = None"
    using C7_removeVideo [of "''b''" twoStore] h1 by blast
  have "videos (removeVideo ''b'' twoStore) = filter (\<lambda>v. id' v \<noteq> ''b'') (videos twoStore)"
    using C7_removeVideo [of "''b''" twoStore] by blast
  then have c2: "videos (removeVideo ''b'' twoStore) = [mkItem ''a'']"
    by (simp add: twoStore_def mkItem_def)
  have "currentVideoId (removeVideo ''a'' twoStore) = currentVideoId twoStore"
    using C7_removeVideo [of "''a''" twoStore] h2 by blast
  then have c3: "currentVideoId (removeVideo ''a'' twoStore) = Some ''b''"
    using h1 by simp
  show ?thesis using h1 h2 c1 c2 c3 by blast
qed

section \<open>Playback controller: listeners across rebinds\<close>

lemma set_addEventListener:
  "set (el_listeners (addEventListener ev cb el)) = insert (ev, cb) (set (el_listeners el))"
  by (auto simp: addEventListener_def)

lemma set_removeEventListener:
  "set (el_listeners (removeEventListener ev cb el)) = set (el_listeners el) - {(ev, cb)}"
  by (auto simp: removeEventListener_def)

lemma set_attach:
  "set (el_listeners (attach k v st el)) = set (el_listeners el) \<union> set (bindingListeners k)"
  unfolding attach_def Let_def set_addEventListener bindingListeners_def by auto

lemma set_cleanup:
  "set (el_listeners (cleanup k el)) =
     set (el_listeners el) - {(TimeUpdate, HandleTimeUpdate k),
        (LoadedMetadata, HandleLoadedMetadata k), (ErrorEvent, HandleError k)}"
  unfolding cleanup_def set_removeEventListener by auto

lemma play_listener_kept:
  "(Play, PlayArrow k) \<in> set (el_listeners (cleanup k (attach k v st el)))"
  unfolding set_cleanup set_attach bindingListeners_def by simp

lemma pause_listener_kept:
  "(Pause, PauseArrow k) \<in> set (el_listeners (cleanup k (attach k v st el)))"
  unfolding set_cleanup set_attach bindingListeners_def by simp

lemma attach_fresh:
  "el_listeners (attach 0 (mkItem ''a'') initialSettings freshElement) = bindingListeners 0"
  by (simp add: attach_def addEventListener_def Let_def freshElement_def bindingListeners_def)

lemma held_after_cleanup: "heldListeners 0 (cleanup 0 (attach 0 (mkItem ''a'') initialSettings freshElement)) =
       [(Play, PlayArrow 0), (Pause, PauseArrow 0)]"
  by (simp add: heldListeners_def cleanup_def removeEventListener_def attach_fresh)
     (simp add: bindingListeners_def)

lemma listeners_addEventListener_fresh:
  "(ev, cb) \<notin> set (el_listeners el) \<Longrightarrow>
     el_listeners (addEventListener ev cb el) = el_listeners el @ [(ev, cb)]"
  by (simp add: addEventListener_def)

lemma listeners_attach_fresh:
  assumes "set (el_listeners el) \<inter> set (bindingListeners k) = {}"
  shows "el_listeners (attach k v st el) = el_listeners el @ bindingListeners k"
proof -
  have a: "(TimeUpdate, HandleTimeUpdate k) \<notin> set (el_listeners el)"
    "(LoadedMetadata, HandleLoadedMetadata k) \<notin> set (el_listeners el)"
    "(ErrorEvent, HandleError k) \<notin> set (el_listeners el)"
    "(Play, PlayArrow k) \<notin> set (el_listeners el)"
    "(Pause, PauseArrow k) \<notin> set (el_listeners el)"
    using assms by (auto simp: bindingListeners_def)
  show ?thesis
    unfolding attach_def Let_def
    using a by (simp add: listeners_addEventListener_fresh set_addEventListener bindingListeners_def)
qed

lemma listeners_cleanup:
  "el_listeners (cleanup k el) =
     filter (\<lambda>l. l \<noteq> (TimeUpdate, HandleTimeUpdate k) \<and> l \<noteq> (LoadedMetadata, HandleLoadedMetadata k)
               \<and> l \<noteq> (ErrorEvent, HandleError k)) (el_listeners el)"
  by (auto simp: cleanup_def removeEventListener_def removeAll_filter_not_eq intro: filter_cong)

lemma listeners_after_three_binds: "el_listeners (rebindAll 0 None [mkItem ''a'', mkItem ''b'', mkItem ''c''] initialSettings freshElement) =
       [(Play, PlayArrow 0), (Pause, PauseArrow 0), (Play, PlayArrow 1), (Pause, PauseArrow 1),
        (TimeUpdate, HandleTimeUpdate 2), (LoadedMetadata, HandleLoadedMetadata 2),
        (ErrorEvent, HandleError 2), (Play, PlayArrow 2), (Pause, PauseArrow 2)]"
proof -
  let ?st = initialSettings
  define e1 where "e1 = attach 0 (mkItem ''a'') ?st freshElement"
  define e2 where "e2 = attach (Suc 0) (mkItem ''b'') ?st (cleanup 0 e1)"
  define e3 where "e3 = attach (Suc (Suc 0)) (mkItem ''c'') ?st (cleanup (Suc 0) e2)"
  have run: "rebindAll 0 None [mkItem ''a'', mkItem ''b'', mkItem ''c''] ?st freshElement = e3"
    by (simp add: bindEffect_def mkItem_def e1_def e2_def e3_def)
  have l1: "el_listeners e1 = bindingListeners 0"
    unfolding e1_def by (subst listeners_attach_fresh) (simp_all add: freshElement_def)
  have c1: "el_listeners (cleanup 0 e1) = [(Play, PlayArrow 0), (Pause, PauseArrow 0)]"
    by (simp add: listeners_cleanup l1 bindingListeners_def)
  have l2: "el_listeners e2 = [(Play, PlayArrow 0), (Pause, PauseArrow 0)] @ bindingListeners (Suc 0)"
    unfolding e2_def by (subst listeners_attach_fresh) (simp_all add: c1 bindingListeners_def)
  have c2: "el_listeners (cleanup (Suc 0) e2) =
      [(Play, PlayArrow 0), (Pause, PauseArrow 0), (Play, PlayArrow (Suc 0)),
       (Pause, PauseArrow (Suc 0))]"
    by (simp add: listeners_cleanup l2 bindingListeners_def)
  have l3: "el_listeners e3 =
      [(Play, PlayArrow 0), (Pause, PauseArrow 0), (Play, PlayArrow (Suc 0)),
       (Pause, PauseArrow (Suc 0))] @ bindingListeners (Suc (Suc 0))"
    unfolding e3_def by (subst listeners_attach_fresh) (simp_all add: c2 bindingListeners_def)
  show ?thesis unfolding run l3 by (simp add: bindingListeners_def numeral_2_eq_2)
qed

text \<open>
  Claim C2 asks that after the cleanup of a binding the element holds none of the five
  listeners the binding registered. The cleanup of the code removes the listeners for
  \<open>timeupdate\<close>, \<open>loadedmetadata\<close> and \<open>error\<close> only: for every element, item and
  preferences, the \<open>play\<close> and \<open>pause\<close> listeners of the binding are still registered after
  its cleanup. On a new element, the binding of item \<open>a\<close> followed by its cleanup leaves
  exactly these two; binding \<open>a\<close>, \<open>b\<close> and \<open>c\<close> in turn leaves the element with three \<open>play\<close>
  and three \<open>pause\<close> listeners, two of each from bindings that are over.
\<close>

theorem C2_cleanup_keeps_play_pause:
  "(Play, PlayArrow k) \<in> set (el_listeners (cleanup k (attach k v st el)))
   \<and> (Pause, PauseArrow k) \<in> set (el_listeners (cleanup k (attach k v st el)))
   \<and> heldListeners 0 (cleanup 0 (attach 0 (mkItem ''a'') initialSettings freshElement)) =
       [(Play, PlayArrow 0), (Pause, PauseArrow 0)]
   \<and> el_listeners (rebindAll 0 None [mkItem ''a'', mkItem ''b'', mkItem ''c''] initialSettings
         freshElement) =
       [(Play, PlayArrow 0), (Pause, PauseArrow 0), (Play, PlayArrow 1), (Pause, PauseArrow 1),
        (TimeUpdate, HandleTimeUpdate 2), (LoadedMetadata, HandleLoadedMetadata 2),
        (ErrorEvent, HandleError 2), (Play, PlayArrow 2), (Pause, PauseArrow 2)]"
  using play_listener_kept [of k v st el] pause_listener_kept [of k v st el]
    held_after_cleanup listeners_after_three_binds
  by blast

section \<open>Thumbnail extraction: properties\<close>

lemma promise_resolve:
  "th_promise (resolve r s) = (if th_promise s = Pending then Resolved r else th_promise s)"
  by (simp add: resolve_def)

lemma promise_deliver:
  "th_promise (deliver e s) =
     (if th_promise s = Pending
      then (case e of
              OnLoadedMetadata d \<Rightarrow> Pending
            | OnSeeked d w h url \<Rightarrow>
                Resolved \<lparr>thumbnail' = url, duration' = d, width' = w, height' = h\<rparr>
            | OnError \<Rightarrow> Resolved degraded)
      else th_promise s)"
  by (cases e) (simp_all add: promise_resolve)

lemma deliverAll_settled:
  "th_promise s \<noteq> Pending \<Longrightarrow> th_promise (deliverAll es s) = th_promise s"
  by (induction es arbitrary: s) (simp_all add: promise_deliver)

lemma deliverAll_no_terminal:
  "\<forall>e \<in> set es. \<not> terminal e \<Longrightarrow> th_promise (deliverAll es s) = th_promise s"
proof (induction es arbitrary: s)
  case Nil
  then show ?case by simp
next
  case (Cons e es)
  then have "\<not> terminal e" by simp
  then have "th_promise (deliver e s) = th_promise s"
    by (cases e) simp_all
  with Cons show ?case by simp
qed

lemma deliverAll_append:
  "deliverAll (xs @ ys) s = deliverAll ys (deliverAll xs s)"
  by (induction xs arbitrary: s) simp_all

lemma deliverAll_not_rejected:
  "th_promise s \<noteq> Rejected err \<Longrightarrow> th_promise (deliverAll es s) \<noteq> Rejected err"
proof (induction es arbitrary: s)
  case Nil
  then show ?case by simp
next
  case (Cons e es)
  have "th_promise (deliver e s) \<noteq> Rejected err"
    using Cons.prems by (cases e) (simp_all add: promise_resolve)
  then show ?case using Cons.IH by simp
qed

lemma deliverAll_terminal_resolved:
  "\<exists>e \<in> set es. terminal e \<Longrightarrow> \<exists>r. th_promise (deliverAll es newSession) = Resolved r"
proof -
  assume "\<exists>e \<in> set es. terminal e"
  then obtain pre e post where split: "es = pre @ e # post" and t: "terminal e"
    by (meson split_list)
  let ?s = "deliverAll pre newSession"
  have "th_promise (deliver e ?s) \<noteq> Pending"
    using t by (cases e) (simp_all add: promise_resolve)
  moreover have "th_promise (deliver e ?s) \<noteq> Rejected err" for err
    using deliverAll_not_rejected [of newSession err "pre @ [e]"]
    by (simp add: deliverAll_append newSession_def)
  ultimately obtain r where r: "th_promise (deliver e ?s) = Resolved r"
    by (cases "th_promise (deliver e ?s)") auto
  have "th_promise (deliverAll es newSession) = th_promise (deliver e ?s)"
    unfolding split deliverAll_append using r by (simp add: deliverAll_settled)
  with r show ?thesis by simp
qed

lemma generateThumbnail_first_terminal:
  assumes "\<forall>e \<in> set pre. \<not> terminal e" and "terminal e"
  shows "generateThumbnail (pre @ e # post) = th_promise (deliver e newSession)"
proof -
  let ?s = "deliverAll pre newSession"
  have p: "th_promise ?s = Pending"
    using deliverAll_no_terminal [OF assms(1), of newSession] by (simp add: newSession_def)
  have d: "th_promise (deliver e ?s) = th_promise (deliver e newSession)"
    using p by (simp add: promise_deliver newSession_def)
  have "th_promise (deliver e ?s) \<noteq> Pending"
    using assms(2) p by (cases e) (simp_all add: promise_resolve)
  then have "th_promise (deliverAll post (deliver e ?s)) = th_promise (deliver e ?s)"
    by (rule deliverAll_settled)
  then show ?thesis
    using d by (simp add: generateThumbnail_def deliverAll_append)
qed

text \<open>
  Claim C5 says that extraction always resolves. A decode session that reports its metadata
  and then neither completes the seek nor fails (the code sets no timer) leaves the promise
  pending.
\<close>

theorem C5_generateThumbnail_pending_counterexample:
  "generateThumbnail [OnLoadedMetadata 120] = Pending"
  by (simp add: generateThumbnail_def newSession_def)

text \<open>
  Claim C5, amended. Extraction never rejects. It resolves if and only if the decode session
  delivers a \<open>seeked\<close> or an \<open>error\<close> event, and the first of them decides the result: the
  degraded result (empty preview, duration, width and height 0) when it is \<open>error\<close>, the
  captured frame with the element's duration and dimensions when it is \<open>seeked\<close>. Later
  events change nothing.
\<close>

theorem C5_generateThumbnail:
  "(\<forall>err. generateThumbnail events \<noteq> Rejected err)
   \<and> ((\<exists>r. generateThumbnail events = Resolved r) \<longleftrightarrow> (\<exists>e \<in> set events. terminal e))
   \<and> ((\<forall>e \<in> set pre. \<not> terminal e) \<longrightarrow>
         generateThumbnail (pre @ OnError # post) = Resolved degraded)
   \<and> ((\<forall>e \<in> set pre. \<not> terminal e) \<longrightarrow>
         generateThumbnail (pre @ OnSeeked d w h url # post) =
           Resolved \<lparr>thumbnail' = url, duration' = d, width' = w, height' = h\<rparr>)"
proof -
  have a: "\<forall>err. generateThumbnail events \<noteq> Rejected err"
    using deliverAll_not_rejected [of newSession _ events]
    by (simp add: generateThumbnail_def newSession_def)
  have b1: "\<exists>e \<in> set events. terminal e \<Longrightarrow> \<exists>r. generateThumbnail events = Resolved r"
    using deliverAll_terminal_resolved [of events] by (simp add: generateThumbnail_def)
  have b2: "\<exists>e \<in> set events. terminal e" if "generateThumbnail events = Resolved r" for r
  proof (rule ccontr)
    assume "\<not> (\<exists>e \<in> set events. terminal e)"
    then have "\<forall>e \<in> set events. \<not> terminal e" by blast
    then have "generateThumbnail events = Pending"
      using deliverAll_no_terminal [of events newSession]
      by (simp add: generateThumbnail_def newSession_def)
    with that show False by simp
  qed
  have c: "(\<forall>e \<in> set pre. \<not> terminal e) \<longrightarrow>
         generateThumbnail (pre @ OnError # post) = Resolved degraded"
    using generateThumbnail_first_terminal [of pre OnError post]
    by (simp add: promise_resolve newSession_def)
  have d: "(\<forall>e \<in> set pre. \<not> terminal e) \<longrightarrow>
         generateThumbnail (pre @ OnSeeked d w h url # post) =
           Resolved \<lparr>thumbnail' = url, duration' = d, width' = w, height' = h\<rparr>"
    using generateThumbnail_first_terminal [of pre "OnSeeked d w h url" post]
    by (simp add: promise_resolve newSession_def)
  show ?thesis using a b1 b2 c d by blast
qed

theorem C5_generateThumbnail_witness:
  "\<not> terminal (OnLoadedMetadata 120)
   \<and> terminal OnError
   \<and> generateThumbnail [OnLoadedMetadata 120, OnError] = Resolved degraded
   \<and> generateThumbnail [OnLoadedMetadata 120, OnSeeked 120 1920 1080 ''data:image/jpeg''] =
       Resolved \<lparr>thumbnail' = ''data:image/jpeg'', duration' = 120, width' = 1920,
                 height' = 1080\<rparr>
   \<and> generateThumbnail [OnError, OnSeeked 120 1920 1080 ''data:image/jpeg''] = Resolved degraded
   \<and> OnError \<in> set [OnLoadedMetadata 120, OnError]
   \<and> generateThumbnail [OnLoadedMetadata 120, OnError] \<noteq> Pending"
proof -
  have h1: "\<exists>e \<in> set [OnLoadedMetadata 120, OnError]. terminal e" by simp
  have c4: "generateThumbnail [OnLoadedMetadata 120, OnError] \<noteq> Pending"
    using C5_generateThumbnail [of "[OnLoadedMetadata 120, OnError]"] h1 by force
  have h: "\<forall>e \<in> set [OnLoadedMetadata 120]. \<not> terminal e" by simp
  have h0: "\<forall>e \<in> set ([]::DecodeEvent list). \<not> terminal e" by simp
  have c1: "generateThumbnail ([OnLoadedMetadata 120] @ OnError # []) = Resolved degraded"
    using C5_generateThumbnail [of "[]" "[OnLoadedMetadata 120]" "[]"] h by blast
  have c2: "generateThumbnail ([OnLoadedMetadata 120] @ OnSeeked 120 1920 1080 ''data:image/jpeg'' # []) =
       Resolved \<lparr>thumbnail' = ''data:image/jpeg'', duration' = 120, width' = 1920,
                 height' = 1080\<rparr>"
    using C5_generateThumbnail [of "[]" "[OnLoadedMetadata 120]" "[]" 120 1920 1080 "''data:image/jpeg''"] h
    by blast
  have c3: "generateThumbnail ([] @ OnError # [OnSeeked 120 1920 1080 ''data:image/jpeg'']) = Resolved degraded"
    using C5_generateThumbnail [of "[]" "[]" "[OnSeeked 120 1920 1080 ''data:image/jpeg'']"] h0 by blast
  show ?thesis using c1 c2 c3 c4 by simp
qed

section \<open>Playback controller: taps\<close>








section \<open>Preferences: invariant and volume keys\<close>

lemma settings_inv_initial: "settings_inv initialSettings"
  by (simp add: settings_inv_def initialSettings_def PLAYBACK_SPEEDS_def)

lemma settings_inv_merge:
  "settings_inv st \<Longrightarrow> partial_ok ps \<Longrightarrow> settings_inv (mergeSettings st ps)"
  by (auto simp: settings_inv_def partial_ok_def mergeSettings_def split: option.splits)

lemma settings_inv_updateSettings:
  "settings_inv (settings st) \<Longrightarrow> partial_ok ps \<Longrightarrow> settings_inv (settings (updateSettings ps st))"
  by (simp add: updateSettings_def settings_inv_merge)

lemma partial_ok_volume: "0 \<le> v \<Longrightarrow> v \<le> 1 \<Longrightarrow> partial_ok (noSettings\<lparr>p_volume := Some v\<rparr>)"
  by (simp add: partial_ok_def noSettings_def)

lemma partial_ok_rate: "r \<in> set PLAYBACK_SPEEDS \<Longrightarrow> partial_ok (noSettings\<lparr>p_playbackRate := Some r\<rparr>)"
  by (simp add: partial_ok_def noSettings_def)

lemma partial_ok_muted: "partial_ok (noSettings\<lparr>p_isMuted := Some b\<rparr>)"
  by (simp add: partial_ok_def noSettings_def)

lemma settings_inv_handleKeyDown:
  assumes "settings_inv (settings st)"
  shows "settings_inv (settings (snd (handleKeyDown now activeTag code (p, st))))"
proof (cases "activeTag \<in> set [''input'', ''textarea'']")
  case True
  then show ?thesis using assms by (simp add: handleKeyDown_def)
next
  case False
  have v: "0 \<le> volume (settings st)" "volume (settings st) \<le> 1"
    using assms by (simp_all add: settings_inv_def)
  have up: "partial_ok (noSettings\<lparr>p_volume := Some (min 1 (volume (settings st) + 1 / 10))\<rparr>)"
    using v by (intro partial_ok_volume) simp_all
  have down: "partial_ok (noSettings\<lparr>p_volume := Some (max 0 (volume (settings st) - 1 / 10))\<rparr>)"
    using v by (intro partial_ok_volume) simp_all
  show ?thesis
    using False assms up down partial_ok_muted
    by (cases code)
       (simp_all add: handleKeyDown_def Let_def toggleMute_def settings_inv_updateSettings
          del: set_simps)
qed

text \<open>
  Claim C8 says that every preference mutation keeps the volume in [0,1] and the rate in
  \<open>PLAYBACK_SPEEDS\<close>. \<open>updateSettings\<close> merges what it is given without looking at it: from
  the defaults, a partial record with volume 5, or with rate 4, breaks the invariant.
\<close>

theorem C8_updateSettings_counterexample:
  "settings_inv (settings initialStore)
   \<and> \<not> settings_inv (settings (updateSettings (noSettings\<lparr>p_volume := Some 5\<rparr>) initialStore))
   \<and> \<not> settings_inv (settings (updateSettings (noSettings\<lparr>p_playbackRate := Some 4\<rparr>) initialStore))"
  by (simp add: settings_inv_def initialStore_def initialSettings_def updateSettings_def
      mergeSettings_def noSettings_def PLAYBACK_SPEEDS_def)

text \<open>
  Claim C8, amended. The defaults satisfy the invariant, and \<open>updateSettings\<close> keeps it
  whenever the volume of the partial record, if present, is in [0,1] and its rate, if
  present, is in \<open>PLAYBACK_SPEEDS\<close>. That is so for every update the player issues: the
  keyboard handler (whatever the key and the focus), the speed menu with a speed of the
  list, the volume slider with a value in [0,1], and the mute toggle. The other store
  operations do not touch the preferences.
\<close>

theorem C8_settings_inv:
  "settings_inv (settings initialStore)
   \<and> (settings_inv (settings st) \<and> partial_ok ps \<longrightarrow>
        settings_inv (settings (updateSettings ps st)))
   \<and> (settings_inv (settings st) \<longrightarrow>
        settings_inv (settings (snd (handleKeyDown now activeTag code (p, st)))))
   \<and> (settings_inv (settings st) \<and> speed \<in> set PLAYBACK_SPEEDS \<longrightarrow>
        settings_inv (settings (selectSpeed speed st)))
   \<and> (settings_inv (settings st) \<and> 0 \<le> v \<and> v \<le> 1 \<longrightarrow>
        settings_inv (settings (volumeSlider v st)))
   \<and> (settings_inv (settings st) \<longrightarrow> settings_inv (settings (toggleMute st)))
   \<and> settings (addVideo video st) = settings st
   \<and> settings (removeVideo i st) = settings st
   \<and> settings (setCurrentVideo sel st) = settings st
   \<and> settings (updateVideoProgress now i pos st) = settings st
   \<and> settings (toggleFavorite i st) = settings st
   \<and> settings (clearHistory st) = settings st"
proof -
  have a: "settings_inv (settings initialStore)"
    using settings_inv_initial by (simp add: initialStore_def)
  have b: "settings_inv (settings st) \<and> partial_ok ps \<longrightarrow>
        settings_inv (settings (updateSettings ps st))"
    using settings_inv_updateSettings by blast
  have c: "settings_inv (settings st) \<longrightarrow>
        settings_inv (settings (snd (handleKeyDown now activeTag code (p, st))))"
    using settings_inv_handleKeyDown by blast
  have d: "settings_inv (settings st) \<and> speed \<in> set PLAYBACK_SPEEDS \<longrightarrow>
        settings_inv (settings (selectSpeed speed st))"
    unfolding selectSpeed_def using settings_inv_updateSettings partial_ok_rate by blast
  have e: "settings_inv (settings st) \<and> 0 \<le> v \<and> v \<le> 1 \<longrightarrow>
        settings_inv (settings (volumeSlider v st))"
    unfolding volumeSlider_def using settings_inv_updateSettings partial_ok_volume by blast
  have f: "settings_inv (settings st) \<longrightarrow> settings_inv (settings (toggleMute st))"
    unfolding toggleMute_def using settings_inv_updateSettings partial_ok_muted by blast
  have g: "settings (addVideo video st) = settings st"
    "settings (removeVideo i st) = settings st"
    "settings (setCurrentVideo sel st) = settings st"
    "settings (updateVideoProgress now i pos st) = settings st"
    "settings (toggleFavorite i st) = settings st"
    "settings (clearHistory st) = settings st"
    by (simp_all add: addVideo_def removeVideo_def setCurrentVideo_def updateVideoProgress_def
        toggleFavorite_def clearHistory_def)
  show ?thesis using a b c d e f g by blast
qed

theorem C8_settings_inv_witness:
  "settings_inv (settings initialStore)
   \<and> partial_ok (noSettings\<lparr>p_volume := Some (1 / 2)\<rparr>)
   \<and> settings_inv (settings (updateSettings (noSettings\<lparr>p_volume := Some (1 / 2)\<rparr>) initialStore))
   \<and> settings_inv (settings (snd (handleKeyDown 0 ''body'' ArrowUp (samplePlayer, initialStore))))
   \<and> (2::real) \<in> set PLAYBACK_SPEEDS
   \<and> settings_inv (settings (selectSpeed 2 initialStore))
   \<and> (0::real) \<le> 1 / 2 \<and> (1 / 2::real) \<le> 1
   \<and> settings_inv (settings (volumeSlider (1 / 2) initialStore))
   \<and> settings_inv (settings (toggleMute initialStore))"
proof -
  note inst = C8_settings_inv [of initialStore "noSettings\<lparr>p_volume := Some (1 / 2)\<rparr>" 0
      "''body''" ArrowUp samplePlayer 2 "1 / 2"]
  have i: "settings_inv (settings initialStore)"
    using inst by blast
  have ok: "partial_ok (noSettings\<lparr>p_volume := Some (1 / 2)\<rparr>)"
    by (simp add: partial_ok_def noSettings_def)
  have sp: "(2::real) \<in> set PLAYBACK_SPEEDS"
    by (simp add: PLAYBACK_SPEEDS_def)
  have r: "(0::real) \<le> 1 / 2" "(1 / 2::real) \<le> 1"
    by simp_all
  show ?thesis
    using inst i ok sp r by blast
qed

lemma handleKeyDown_ArrowUp:
  assumes "activeTag \<notin> set [''input'', ''textarea'']"
  shows "handleKeyDown now activeTag ArrowUp (p, st) =
     (p, st\<lparr>settings := (settings st)\<lparr>volume := min 1 (volume (settings st) + 1 / 10)\<rparr>\<rparr>)"
  using assms
  by (simp add: handleKeyDown_def Let_def updateSettings_def mergeSettings_def noSettings_def
      del: set_simps)

lemma handleKeyDown_ArrowDown:
  assumes "activeTag \<notin> set [''input'', ''textarea'']"
  shows "handleKeyDown now activeTag ArrowDown (p, st) =
     (p, st\<lparr>settings := (settings st)\<lparr>volume := max 0 (volume (settings st) - 1 / 10)\<rparr>\<rparr>)"
  using assms
  by (simp add: handleKeyDown_def Let_def updateSettings_def mergeSettings_def noSettings_def
      del: set_simps)

text \<open>
  Claim C9. When the focus is not in an input or a textarea (the shortcuts are active only
  then), an ArrowUp key event sets the preference volume to \<open>min 1 (v + 0.1)\<close> and an
  ArrowDown key event sets it to \<open>max 0 (v - 0.1)\<close>, where \<open>v\<close> is the current volume;
  nothing else of the store or of the player changes. For \<open>v\<close> in [0,1] the new volume is in
  [0,1] again, and from 0.95 one ArrowUp gives 1.
\<close>

theorem C9_volume_keys:
  assumes "activeTag \<notin> set [''input'', ''textarea'']"
  shows
  "handleKeyDown now activeTag ArrowUp (p, st) =
     (p, st\<lparr>settings := (settings st)\<lparr>volume := min 1 (volume (settings st) + 1 / 10)\<rparr>\<rparr>)
   \<and> handleKeyDown now activeTag ArrowDown (p, st) =
     (p, st\<lparr>settings := (settings st)\<lparr>volume := max 0 (volume (settings st) - 1 / 10)\<rparr>\<rparr>)
   \<and> (0 \<le> volume (settings st) \<and> volume (settings st) \<le> 1 \<longrightarrow>
        0 \<le> volume (settings (snd (handleKeyDown now activeTag ArrowUp (p, st))))
        \<and> volume (settings (snd (handleKeyDown now activeTag ArrowUp (p, st)))) \<le> 1
        \<and> 0 \<le> volume (settings (snd (handleKeyDown now activeTag ArrowDown (p, st))))
        \<and> volume (settings (snd (handleKeyDown now activeTag ArrowDown (p, st)))) \<le> 1)
   \<and> (volume (settings st) = 95 / 100 \<longrightarrow>
        volume (settings (snd (handleKeyDown now activeTag ArrowUp (p, st)))) = 1)"
  unfolding handleKeyDown_ArrowUp [OF assms] handleKeyDown_ArrowDown [OF assms]
  by simp

theorem C9_volume_keys_witness:
  "''body'' \<notin> set [''input'', ''textarea'']
   \<and> (0::real) \<le> volume (settings (storeWithVolume (95 / 100)))
   \<and> volume (settings (storeWithVolume (95 / 100))) \<le> 1
   \<and> volume (settings (storeWithVolume (95 / 100))) = 95 / 100
   \<and> volume (settings (snd (handleKeyDown 0 ''body'' ArrowUp
        (samplePlayer, storeWithVolume (95 / 100))))) = 1
   \<and> 0 \<le> volume (settings (snd (handleKeyDown 0 ''body'' ArrowDown
        (samplePlayer, storeWithVolume (95 / 100)))))
   \<and> volume (settings (snd (handleKeyDown 0 ''body'' ArrowDown
        (samplePlayer, storeWithVolume (95 / 100))))) = 85 / 100"
proof -
  have tag: "''body'' \<notin> set [''input'', ''textarea'']" by simp
  have v: "volume (settings (storeWithVolume (95 / 100))) = 95 / 100"
    by (simp add: storeWithVolume_def)
  have r: "(0::real) \<le> volume (settings (storeWithVolume (95 / 100)))"
    "volume (settings (storeWithVolume (95 / 100))) \<le> 1"
    by (simp_all add: storeWithVolume_def)
  note inst = C9_volume_keys [OF tag, of 0 samplePlayer "storeWithVolume (95 / 100)"]
  have up: "volume (settings (snd (handleKeyDown 0 ''body'' ArrowUp
        (samplePlayer, storeWithVolume (95 / 100))))) = 1"
    using inst v by blast
  have down0: "0 \<le> volume (settings (snd (handleKeyDown 0 ''body'' ArrowDown
        (samplePlayer, storeWithVolume (95 / 100)))))"
    using inst r by blast
  have "handleKeyDown 0 ''body'' ArrowDown (samplePlayer, storeWithVolume (95 / 100)) =
     (samplePlayer, (storeWithVolume (95 / 100))\<lparr>settings := (settings (storeWithVolume (95 / 100)))
        \<lparr>volume := max 0 (volume (settings (storeWithVolume (95 / 100))) - 1 / 10)\<rparr>\<rparr>)"
    using inst by blast
  then have down: "volume (settings (snd (handleKeyDown 0 ''body'' ArrowDown
        (samplePlayer, storeWithVolume (95 / 100))))) = 85 / 100"
    by (simp add: storeWithVolume_def)
  show ?thesis using tag v r up down0 down by blast
qed

section \<open>File picker: selection after an import\<close>

lemma currentVideoId_addVideo: "currentVideoId (addVideo v st) = currentVideoId st"
  by (simp add: addVideo_def)

lemma importLoop_keeps_selection:
  "n \<noteq> 1 \<Longrightarrow> currentVideoId (fst (importLoop n fs st)) = currentVideoId st"
proof (induction fs arbitrary: st)
  case Nil
  then show ?case by simp
next
  case (Cons f fs)
  show ?case
  proof (cases "generateThumbnail (decode f)")
    case Pending
    then show ?thesis by simp
  next
    case (Resolved r)
    then show ?thesis
      using Cons.IH [OF Cons.prems, of "addVideo (newVideo f r) st"] Cons.prems
      by (simp add: currentVideoId_addVideo)
  next
    case (Rejected err)
    then show ?thesis using Cons.IH [OF Cons.prems, of st] by simp
  qed
qed

lemma handleLocalUpload_single:
  assumes "generateThumbnail (decode f) = Resolved r"
  shows "handleLocalUpload [f] (st, l) =
           (setCurrentVideo (Some (uuid f)) (addVideo (newVideo f r) st), False)"
  using assms by (simp add: handleLocalUpload_def newVideo_def)

lemma handleLocalUpload_batch:
  assumes "2 \<le> length files"
  shows "currentVideoId (fst (handleLocalUpload files (st, l))) = currentVideoId st"
proof -
  have n: "length files \<noteq> 1" "length files \<noteq> 0" using assms by auto
  have "fst (handleLocalUpload files (st, l)) = fst (importLoop (length files) files st)"
    using n by (simp add: handleLocalUpload_def split: prod.splits)
  then show ?thesis using importLoop_keeps_selection [OF n(1)] by simp
qed

text \<open>
  Claim C10. When the file picker hands over exactly one file and its extraction resolves,
  the handler inserts the new item and selects it: afterwards the new item is the first
  entry of the catalog and its id is the active selection. When it hands over two or more
  files, the active selection after the handler is the one before it, whatever happens to
  the single files.
\<close>

theorem C10_handleLocalUpload:
  "(generateThumbnail (decode f) = Resolved r \<longrightarrow>
      handleLocalUpload [f] (st, l) =
        (setCurrentVideo (Some (uuid f)) (addVideo (newVideo f r) st), False)
      \<and> currentVideoId (fst (handleLocalUpload [f] (st, l))) = Some (id' (newVideo f r))
      \<and> take 1 (videos (fst (handleLocalUpload [f] (st, l)))) = [newVideo f r])
   \<and> (2 \<le> length files \<longrightarrow>
      currentVideoId (fst (handleLocalUpload files (st, l))) = currentVideoId st)"
proof -
  have a: "handleLocalUpload [f] (st, l) =
        (setCurrentVideo (Some (uuid f)) (addVideo (newVideo f r) st), False)
      \<and> currentVideoId (fst (handleLocalUpload [f] (st, l))) = Some (id' (newVideo f r))
      \<and> take 1 (videos (fst (handleLocalUpload [f] (st, l)))) = [newVideo f r]"
    if "generateThumbnail (decode f) = Resolved r"
    unfolding handleLocalUpload_single [OF that]
    by (simp add: setCurrentVideo_def addVideo_def newVideo_def)
  show ?thesis using a handleLocalUpload_batch by blast
qed

theorem C10_handleLocalUpload_witness:
  "generateThumbnail (decode (sampleFile ''u1'')) =
     Resolved \<lparr>thumbnail' = ''data:image/jpeg'', duration' = 120, width' = 1920, height' = 1080\<rparr>
   \<and> currentVideoId twoStore = Some ''b''
   \<and> currentVideoId (fst (handleLocalUpload [sampleFile ''u1''] (twoStore, False))) = Some ''u1''
   \<and> (2::nat) \<le> length [sampleFile ''u1'', sampleFile ''u2'']
   \<and> currentVideoId (fst (handleLocalUpload [sampleFile ''u1'', sampleFile ''u2''] (twoStore, False)))
       = Some ''b''"
proof -
  let ?r = "\<lparr>thumbnail' = ''data:image/jpeg'', duration' = 120, width' = 1920, height' = 1080\<rparr>"
  have h1: "generateThumbnail (decode (sampleFile ''u1'')) = Resolved ?r"
    by (simp add: sampleFile_def generateThumbnail_def newSession_def resolve_def)
  have h2: "(2::nat) \<le> length [sampleFile ''u1'', sampleFile ''u2'']" by simp
  have s: "currentVideoId twoStore = Some ''b''" by (simp add: twoStore_def)
  have "currentVideoId (fst (handleLocalUpload [sampleFile ''u1''] (twoStore, False))) =
      Some (id' (newVideo (sampleFile ''u1'') ?r))"
    using C10_handleLocalUpload [of "sampleFile ''u1''" ?r twoStore False] h1 by blast
  then have c1: "currentVideoId (fst (handleLocalUpload [sampleFile ''u1''] (twoStore, False))) = Some ''u1''"
    by (simp add: newVideo_def sampleFile_def)
  have "currentVideoId (fst (handleLocalUpload [sampleFile ''u1'', sampleFile ''u2''] (twoStore, False)))
      = currentVideoId twoStore"
    using C10_handleLocalUpload [where files = "[sampleFile ''u1'', sampleFile ''u2'']"
        and st = twoStore and l = False] h2
    by blast
  then have c2: "currentVideoId (fst (handleLocalUpload [sampleFile ''u1'', sampleFile ''u2''] (twoStore, False)))
       = Some ''b''"
    using s by simp
  show ?thesis using h1 h2 s c1 c2 by blast
qed

end
